theory Spec2Isabelle
  imports Main "HOL-Library.AList"
begin

section \<open>The hierarchical process state store of robo.js (core/state.ts)\<close>

subsection \<open>Runtime values\<close>

text \<open>
  The store holds values of type \<^verbatim>\<open>unknown\<close>. A value is modelled as a finite tree:
  the primitives, a function, an array, or any other object. An object carries what
  \<^verbatim>\<open>value.constructor\<close> evaluates to: \<open>None\<close> when the object has no constructor (an object
  made by \<^verbatim>\<open>Object.create(null)\<close>, which has no prototype), \<open>Some n\<close> when
  \<^verbatim>\<open>value.constructor.name\<close> is \<open>n\<close>. Its fields are the enumerable properties in the order
  \<^verbatim>\<open>for ... in\<close> visits them. An array is an object whose constructor name is \<^verbatim>\<open>Array\<close> and
  for which \<^verbatim>\<open>Array.isArray\<close> holds.

  Values are trees of data: a value that contains itself is not represented, stored values
  are copied rather than shared by reference, and properties with getters or setters,
  frozen objects and array holes are outside the model.
\<close>

datatype jsval =
    Undefined
  | Null
  | Bool bool
  | Num int
  | Str string
  | Func string
  | Arr "jsval list"
  | Obj "string option" "(string \<times> jsval) list"

type_synonym jsobject = "(string \<times> jsval) list"

datatype error = TypeError string

subsection \<open>Objects made by \<^verbatim>\<open>{}\<close>\<close>

text \<open>
  The table \<^verbatim>\<open>state\<close>, the \<^verbatim>\<open>result\<close> of the Sanitizer and the snapshot that is written
  back are objects made by \<^verbatim>\<open>{}\<close> and then changed by \<^verbatim>\<open>obj[key] = value\<close> and
  \<^verbatim>\<open>delete obj[key]\<close> only. Such an object has its own properties, in insertion order, and a
  prototype: \<^verbatim>\<open>Object.prototype\<close> at first, later possibly \<^verbatim>\<open>null\<close> or a value, installed by
  an assignment to \<^verbatim>\<open>__proto__\<close>. (JavaScript lists the keys that are array indices before
  the others; the order of keys is used in no property below.)
\<close>

datatype prototype = ObjectPrototype | NullPrototype | ValuePrototype jsval

record plain_object =
  own :: jsobject
  proto :: prototype

definition empty_object :: plain_object where
  "empty_object = \<lparr>own = [], proto = ObjectPrototype\<rparr>"

text \<open>
  The members of \<^verbatim>\<open>Object.prototype\<close>. All are functions, written \<open>Func\<close> with their name,
  but \<^verbatim>\<open>__proto__\<close>, an accessor: read, it gives the prototype of the object it is read
  from. \<open>ctor\<close> is the name of the constructor found on the way.
\<close>

definition object_prototype_names :: "string list" where
  "object_prototype_names =
     [''constructor'', ''__defineGetter__'', ''__defineSetter__'', ''hasOwnProperty'',
      ''__lookupGetter__'', ''__lookupSetter__'', ''isPrototypeOf'', ''propertyIsEnumerable'',
      ''toString'', ''valueOf'', ''__proto__'', ''toLocaleString'']"

definition object_prototype_member :: "string \<Rightarrow> string \<Rightarrow> jsval \<Rightarrow> jsval" where
  "object_prototype_member key ctor receiver_proto =
     (if key = ''__proto__'' then receiver_proto
      else if key = ''constructor'' then Func ctor
      else if key \<in> set object_prototype_names then Func key
      else Undefined)"

text \<open>The name of an array index.\<close>

function decimal :: "nat \<Rightarrow> string" where
  "decimal n =
     (if n < 10 then [''0123456789'' ! n]
      else decimal (n div 10) @ [''0123456789'' ! (n mod 10)])"
  by pat_completeness auto
termination
  by (relation "measure id") auto

declare decimal.simps [simp del]

text \<open>
  What the type of a value is \<^verbatim>\<open>Object\<close> for, the enumerable properties of a value and
  the name of its constructor.
\<close>

definition is_object :: "jsval \<Rightarrow> bool" where
  "is_object v = (case v of Obj c ps \<Rightarrow> True | Arr items \<Rightarrow> True | Func f \<Rightarrow> True | _ \<Rightarrow> False)"

definition enumerable_props :: "jsval \<Rightarrow> jsobject" where
  "enumerable_props v =
     (case v of
        Obj c ps \<Rightarrow> ps
      | Arr items \<Rightarrow> zip (map decimal [0..<length items]) items
      | _ \<Rightarrow> [])"

definition value_constructor :: "jsval \<Rightarrow> string option" where
  "value_constructor v =
     (case v of
        Obj c ps \<Rightarrow> c
      | Arr items \<Rightarrow> Some ''Array''
      | Func f \<Rightarrow> Some ''Function''
      | _ \<Rightarrow> None)"

text \<open>
  A property read through a value that serves as prototype: its enumerable properties
  first, then, when it has a constructor, the length of an array and the members of
  \<^verbatim>\<open>Object.prototype\<close>. The other members that a class, \<^verbatim>\<open>Array.prototype\<close> or
  \<^verbatim>\<open>Function.prototype\<close> would add are outside the model.
\<close>

definition value_member :: "jsval \<Rightarrow> string \<Rightarrow> jsval" where
  "value_member pv key =
     (case map_of (enumerable_props pv) key of
        Some v \<Rightarrow> v
      | None \<Rightarrow>
          (case value_constructor pv of
             None \<Rightarrow> Undefined
           | Some n \<Rightarrow>
               (case pv of
                  Arr items \<Rightarrow>
                    if key = ''length'' then Num (int (length items))
                    else object_prototype_member key n pv
                | _ \<Rightarrow> object_prototype_member key n pv)))"

text \<open>\<^verbatim>\<open>obj[key]\<close>: the own property, else what the prototype gives.\<close>

definition obj_get :: "plain_object \<Rightarrow> string \<Rightarrow> jsval" where
  "obj_get obj key =
     (case map_of (own obj) key of
        Some v \<Rightarrow> v
      | None \<Rightarrow>
          (case proto obj of
             ObjectPrototype \<Rightarrow>
               object_prototype_member key ''Object'' (Obj (Some ''Object'') [])
           | NullPrototype \<Rightarrow> Undefined
           | ValuePrototype pv \<Rightarrow> value_member pv key))"

text \<open>
  \<^verbatim>\<open>obj[key] = value\<close>. When the object has no own property \<^verbatim>\<open>__proto__\<close> and the accessor
  of \<^verbatim>\<open>Object.prototype\<close> is what the name reaches, the assignment calls its setter: an
  object or \<^verbatim>\<open>null\<close> becomes the prototype, any other value is ignored, and no own
  property is made. Every other assignment writes an own property.
\<close>

definition setter_reachable :: "prototype \<Rightarrow> bool" where
  "setter_reachable p =
     (case p of
        ObjectPrototype \<Rightarrow> True
      | NullPrototype \<Rightarrow> False
      | ValuePrototype pv \<Rightarrow>
          map_of (enumerable_props pv) ''__proto__'' = None \<and> value_constructor pv \<noteq> None)"

definition obj_set :: "string \<Rightarrow> jsval \<Rightarrow> plain_object \<Rightarrow> plain_object" where
  "obj_set key v obj =
     (if map_of (own obj) key = None \<and> key = ''__proto__'' \<and> setter_reachable (proto obj)
      then (if is_object v then obj\<lparr>proto := ValuePrototype v\<rparr>
            else if v = Null then obj\<lparr>proto := NullPrototype\<rparr>
            else obj)
      else obj\<lparr>own := AList.update key v (own obj)\<rparr>)"

text \<open>\<^verbatim>\<open>delete obj[key]\<close> and \<^verbatim>\<open>Object.keys(obj)\<close>.\<close>

definition obj_delete :: "string \<Rightarrow> plain_object \<Rightarrow> plain_object" where
  "obj_delete key obj = obj\<lparr>own := AList.delete key (own obj)\<rparr>"

definition obj_keys :: "plain_object \<Rightarrow> string list" where
  "obj_keys obj = map fst (own obj)"

text \<open>
  The object as a value: the constructor its prototype gives it, and its own properties
  followed by the enumerable ones it inherits.
\<close>

definition as_value :: "plain_object \<Rightarrow> jsval" where
  "as_value obj =
     (case proto obj of
        ObjectPrototype \<Rightarrow> Obj (Some ''Object'') (own obj)
      | NullPrototype \<Rightarrow> Obj None (own obj)
      | ValuePrototype pv \<Rightarrow>
          Obj (value_constructor pv)
            (own obj @ filter (\<lambda>p. map_of (own obj) (fst p) = None) (enumerable_props pv)))"

subsection \<open>Sanitizer: \<^verbatim>\<open>removeInstances\<close>\<close>

definition builtInTypes :: "string list" where
  "builtInTypes = [''String'', ''Number'', ''Boolean'', ''Array'', ''Object'']"

definition array_includes :: "string list \<Rightarrow> string \<Rightarrow> bool" where
  "array_includes xs x = (x \<in> set xs)"

text \<open>
  The \<^verbatim>\<open>warned\<close> object threaded through one pass, together with the calls made to
  \<^verbatim>\<open>logger.warn\<close> (each with the offending value).
\<close>

record warn_state =
  warned :: bool
  warnings :: "jsval list"

definition warn_once :: "jsval \<Rightarrow> warn_state \<Rightarrow> warn_state" where
  "warn_once v w =
     (if \<not> warned w then w\<lparr>warnings := warnings w @ [v], warned := True\<rparr> else w)"

text \<open>
  \<open>removeInstances_from v w\<close> is \<^verbatim>\<open>removeInstances(value, warned)\<close>: the result or the error
  thrown, and the state of the log afterwards. \<open>map_items\<close> is the \<^verbatim>\<open>value.map(...)\<close> of the
  array branch and \<open>for_in\<close> the loop of the object branch, with \<open>result\<close> as accumulator;
  both stop at the first throw.
\<close>

fun removeInstances_from :: "jsval \<Rightarrow> warn_state \<Rightarrow> (error + jsval) \<times> warn_state"
  and map_items :: "jsval list \<Rightarrow> warn_state \<Rightarrow> (error + jsval list) \<times> warn_state"
  and for_in :: "jsobject \<Rightarrow> plain_object \<Rightarrow> warn_state \<Rightarrow> (error + plain_object) \<times> warn_state"
where
  "removeInstances_from (Func f) w = (Inr Undefined, w)"
| "removeInstances_from (Arr items) w =
     (if \<not> array_includes builtInTypes ''Array'' then (Inr Undefined, warn_once (Arr items) w)
      else (case map_items items w of
              (Inl e, w') \<Rightarrow> (Inl e, w')
            | (Inr ys, w') \<Rightarrow> (Inr (Arr (filter (\<lambda>item. item \<noteq> Undefined) ys)), w')))"
| "removeInstances_from (Obj None props) w =
     (Inl (TypeError ''Cannot read properties of undefined (reading name)''), w)"
| "removeInstances_from (Obj (Some n) props) w =
     (if \<not> array_includes builtInTypes n then (Inr Undefined, warn_once (Obj (Some n) props) w)
      else (case for_in props empty_object w of
              (Inl e, w') \<Rightarrow> (Inl e, w')
            | (Inr result, w') \<Rightarrow> (Inr (as_value result), w')))"
| "removeInstances_from Undefined w = (Inr Undefined, w)"
| "removeInstances_from Null w = (Inr Null, w)"
| "removeInstances_from (Bool b) w = (Inr (Bool b), w)"
| "removeInstances_from (Num n) w = (Inr (Num n), w)"
| "removeInstances_from (Str s) w = (Inr (Str s), w)"
| "map_items [] w = (Inr [], w)"
| "map_items (item # items) w =
     (case removeInstances_from item w of
        (Inl e, w') \<Rightarrow> (Inl e, w')
      | (Inr y, w') \<Rightarrow>
          (case map_items items w' of
             (Inl e, w'') \<Rightarrow> (Inl e, w'')
           | (Inr ys, w'') \<Rightarrow> (Inr (y # ys), w'')))"
| "for_in [] result w = (Inr result, w)"
| "for_in ((key, v) # props) result w =
     (case removeInstances_from v w of
        (Inl e, w') \<Rightarrow> (Inl e, w')
      | (Inr processedValue, w') \<Rightarrow>
          for_in props
            (if processedValue \<noteq> Undefined then obj_set key processedValue result
             else result) w')"

text \<open>A top-level call: the default parameter \<^verbatim>\<open>warned = { value: false }\<close>.\<close>

definition removeInstances :: "jsval \<Rightarrow> (error + jsval) \<times> warn_state" where
  "removeInstances v = removeInstances_from v \<lparr>warned = False, warnings = []\<rparr>"

subsection \<open>Options and the optional-value operators\<close>

text \<open>
  \<^verbatim>\<open>SetStateOptions\<close> and \<^verbatim>\<open>StateOptions\<close> have the same shape: one optional boolean.
  An options argument may itself be missing.
\<close>

record state_options =
  persist :: "bool option"

type_synonym SetStateOptions = state_options
type_synonym StateOptions = state_options

text \<open>\<^verbatim>\<open>options?.persist\<close>\<close>

definition opt_persist :: "state_options option \<Rightarrow> bool option" where
  "opt_persist options = (case options of None \<Rightarrow> None | Some r \<Rightarrow> persist r)"

text \<open>\<^verbatim>\<open>a ?? b\<close>\<close>

definition nullish :: "'a option \<Rightarrow> 'a option \<Rightarrow> 'a option" where
  "nullish a b = (case a of None \<Rightarrow> b | Some x \<Rightarrow> Some x)"

text \<open>The test \<^verbatim>\<open>if (persist)\<close> on an optional boolean.\<close>

definition truthy :: "bool option \<Rightarrow> bool" where
  "truthy p = (case p of None \<Rightarrow> False | Some b \<Rightarrow> b)"

text \<open>
  \<^verbatim>\<open>savedState[key]\<close> for a key that \<^verbatim>\<open>Object.keys(savedState)\<close> gave: the own property.
\<close>

definition own_value :: "jsobject \<Rightarrow> string \<Rightarrow> jsval" where
  "own_value props key = (case map_of props key of None \<Rightarrow> Undefined | Some v \<Rightarrow> v)"

subsection \<open>The process: table, registry, durable backend, channel\<close>

record robo_message =
  msg_type :: string
  msg_state :: "jsobject option"

text \<open>
  Modelled from the spec: \<^verbatim>\<open>Flashcore\<close> (core/flashcore.js) and \<^verbatim>\<open>FLASHCORE_KEYS\<close>
  (core/constants.js) are not part of the sources at hand. The backend "exposes
  \<^verbatim>\<open>get(key) -> mapping | absent\<close> and \<^verbatim>\<open>set(key, mapping) -> void\<close>, both asynchronous", and
  the store uses "exactly one well-known key". So the backend is the mapping held under
  that key (\<open>None\<close> when absent): \<^verbatim>\<open>set\<close> replaces it by the own properties of the object it
  is given, and \<^verbatim>\<open>get\<close> resolves at some later moment with an object that has the
  properties held then.

  A run of \<^verbatim>\<open>persistState\<close> is suspended once, at \<^verbatim>\<open>await Flashcore.get(...)\<close>: it waits
  for the backend, then holds the snapshot it was given, then has written back.
\<close>

datatype run_phase = AwaitingGet | GotSnapshot "jsobject option" | Finished

record persist_run =
  run_key :: string
  run_value :: jsval
  phase :: run_phase

text \<open>
  \<open>state\<close> is the exported table, \<open>prefixes\<close> is \<^verbatim>\<open>State._prefixes\<close> (a set, kept in insertion
  order), \<open>flashcore\<close> the persisted snapshot, \<open>runs\<close> the calls of \<^verbatim>\<open>persistState\<close> made so far,
  and \<open>channel\<close> the messages given to \<^verbatim>\<open>process.send\<close> (\<open>None\<close> when the process has no
  channel to a parent, where \<^verbatim>\<open>process.send\<close> is undefined). The \<^verbatim>\<open>state\<close> field of a message
  is kept as the own properties of the object in it; what the channel makes of a message
  on its way is not modelled.
\<close>

record world =
  state :: plain_object
  prefixes :: "string list"
  flashcore :: "jsobject option"
  runs :: "persist_run list"
  channel :: "robo_message list option"

definition initial_world :: world where
  "initial_world =
     \<lparr>state = empty_object, prefixes = [], flashcore = None, runs = [], channel = Some []\<rparr>"

subsection \<open>Module functions\<close>

definition clearState :: "world \<Rightarrow> world" where
  "clearState w = w\<lparr>state := fold (\<lambda>key st. obj_delete key st) (obj_keys (state w)) (state w)\<rparr>"

definition getState :: "string \<Rightarrow> world \<Rightarrow> jsval" where
  "getState key w = obj_get (state w) key"

definition loadState :: "jsobject \<Rightarrow> world \<Rightarrow> world" where
  "loadState savedState w =
     w\<lparr>state := fold (\<lambda>key st. obj_set key (own_value savedState key) st)
                  (map fst savedState) (state w)\<rparr>"


text \<open>
  \<^verbatim>\<open>setState\<close> writes the table and, when \<^verbatim>\<open>persist\<close> is truthy, starts a run of
  \<^verbatim>\<open>persistState\<close>, which it does not await.
\<close>

definition setState :: "string \<Rightarrow> jsval \<Rightarrow> SetStateOptions option \<Rightarrow> world \<Rightarrow> world" where
  "setState key v options w =
     (let persist = opt_persist options;
          w' = w\<lparr>state := obj_set key v (state w)\<rparr>
      in if truthy persist
         then w'\<lparr>runs := runs w' @ [\<lparr>run_key = key, run_value = v, phase = AwaitingGet\<rparr>]\<rparr>
         else w')"

text \<open>The backend answers the \<^verbatim>\<open>get\<close> of run \<open>i\<close> with the snapshot it holds.\<close>

definition flashcore_get_resolves :: "nat \<Rightarrow> world \<Rightarrow> world" where
  "flashcore_get_resolves i w =
     (if i < length (runs w) \<and> phase (runs w ! i) = AwaitingGet
      then w\<lparr>runs := (runs w)[i := (runs w ! i)\<lparr>phase := GotSnapshot (flashcore w)\<rparr>]\<rparr>
      else w)"

text \<open>
  Run \<open>i\<close> resumes after its \<^verbatim>\<open>await\<close>: \<^verbatim>\<open>persistedState = result ?? {}\<close>,
  \<^verbatim>\<open>persistedState[key] = value\<close>, \<^verbatim>\<open>Flashcore.set(FLASHCORE_KEYS.state, persistedState)\<close>.
\<close>

definition persistState_resume :: "nat \<Rightarrow> world \<Rightarrow> world" where
  "persistState_resume i w =
     (if i < length (runs w)
      then (case phase (runs w ! i) of
              GotSnapshot r \<Rightarrow>
                (let persistedState =
                       (case r of None \<Rightarrow> empty_object
                        | Some s \<Rightarrow> \<lparr>own = s, proto = ObjectPrototype\<rparr>);
                     persistedState' =
                       obj_set (run_key (runs w ! i)) (run_value (runs w ! i)) persistedState
                 in w\<lparr>flashcore := Some (own persistedState'),
                      runs := (runs w)[i := (runs w ! i)\<lparr>phase := Finished\<rparr>]\<rparr>)
            | _ \<Rightarrow> w)
      else w)"

text \<open>A run that is answered and resumes with nothing in between.\<close>

definition persistState_complete :: "nat \<Rightarrow> world \<Rightarrow> world" where
  "persistState_complete i w = persistState_resume i (flashcore_get_resolves i w)"

subsection \<open>The class \<^verbatim>\<open>State\<close>\<close>

text \<open>The template literals \<^verbatim>\<open>`${this._prefix}__${prefix}`\<close> and \<^verbatim>\<open>`${this._prefix}__${key}`\<close>.\<close>

definition template :: "string \<Rightarrow> string \<Rightarrow> string" where
  "template a b = a @ ''__'' @ b"

record State =
  fprefix :: string
  foptions :: "StateOptions option"

definition set_add :: "'a \<Rightarrow> 'a list \<Rightarrow> 'a list" where
  "set_add x xs = (if x \<in> set xs then xs else xs @ [x])"

text \<open>The static \<^verbatim>\<open>State.fork\<close> and \<^verbatim>\<open>State.listForks\<close>.\<close>

definition State_fork :: "string \<Rightarrow> StateOptions option \<Rightarrow> world \<Rightarrow> State \<times> world" where
  "State_fork prefix options w =
     (\<lparr>fprefix = prefix, foptions = options\<rparr>, w\<lparr>prefixes := set_add prefix (prefixes w)\<rparr>)"

definition listForks :: "world \<Rightarrow> string list" where
  "listForks w = prefixes w"

text \<open>
  The instance methods. \<^verbatim>\<open>fork\<close> only constructs a handle: it reads and writes nothing of
  the process, in particular not \<^verbatim>\<open>State._prefixes\<close>.
\<close>

definition fork :: "State \<Rightarrow> string \<Rightarrow> StateOptions option \<Rightarrow> State" where
  "fork this prefix options = \<lparr>fprefix = template (fprefix this) prefix, foptions = options\<rparr>"

definition State_getState :: "State \<Rightarrow> string \<Rightarrow> world \<Rightarrow> jsval" where
  "State_getState this key w = getState (template (fprefix this) key) w"

definition State_setState ::
  "State \<Rightarrow> string \<Rightarrow> jsval \<Rightarrow> SetStateOptions option \<Rightarrow> world \<Rightarrow> world" where
  "State_setState this key v options w =
     setState (template (fprefix this) key) v
       (Some \<lparr>persist = nullish (opt_persist options) (opt_persist (foptions this))\<rparr>) w"

subsection \<open>Cross-process save: \<^verbatim>\<open>getStateSave\<close>\<close>

text \<open>
  The supervisor's side of one call. The worker handle is an event emitter; what it emits
  after the call is a list of events, each a message or a fault. The request keeps which
  of its two listeners are still registered, the promise, and the calls it has made on
  the handle and on the promise, in order.
\<close>

type_synonym ChildProcess = nat

datatype 'a promise = Pending | Resolved 'a | Rejected string

datatype channel_event = Message robo_message | Fault string

datatype call =
    On_message
  | Once_error
  | Off_message
  | Send robo_message
  | Resolve "jsobject option"
  | Reject string

record save_request =
  message_listener :: bool
  error_listener :: bool
  outcome :: "jsobject option promise"
  calls :: "call list"

definition isStateMessage :: "robo_message \<Rightarrow> bool" where
  "isStateMessage message = (msg_type message = ''state-load'' \<or> msg_type message = ''state-save'')"

text \<open>A promise settles once; a later \<^verbatim>\<open>resolve\<close> or \<^verbatim>\<open>reject\<close> changes nothing.\<close>

definition settle :: "'a promise \<Rightarrow> 'a promise \<Rightarrow> 'a promise" where
  "settle new old = (if old = Pending then new else old)"

text \<open>The synchronous part of \<^verbatim>\<open>getStateSave\<close>.\<close>

definition getStateSave_call :: "ChildProcess option \<Rightarrow> save_request" where
  "getStateSave_call botProcess =
     (case botProcess of
        None \<Rightarrow>
          \<lparr>message_listener = False, error_listener = False,
           outcome = Resolved (Some []), calls = [Resolve (Some [])]\<rparr>
      | Some p \<Rightarrow>
          \<lparr>message_listener = True, error_listener = True, outcome = Pending,
           calls = [On_message, Once_error, Send \<lparr>msg_type = ''state-save'', msg_state = None\<rparr>]\<rparr>)"

text \<open>One event reaches the handle: \<^verbatim>\<open>messageListener\<close>, or the \<^verbatim>\<open>once('error')\<close> handler.\<close>

fun deliver :: "channel_event \<Rightarrow> save_request \<Rightarrow> save_request" where
  "deliver (Message message) r =
     (if message_listener r \<and> isStateMessage message
      then r\<lparr>message_listener := False,
             outcome := settle (Resolved (msg_state message)) (outcome r),
             calls := calls r @ [Off_message, Resolve (msg_state message)]\<rparr>
      else r)"
| "deliver (Fault e) r =
     (if error_listener r
      then r\<lparr>error_listener := False, message_listener := False,
             outcome := settle (Rejected e) (outcome r),
             calls := calls r @ [Off_message, Reject e]\<rparr>
      else r)"

definition getStateSave :: "ChildProcess option \<Rightarrow> channel_event list \<Rightarrow> save_request" where
  "getStateSave botProcess events = fold deliver events (getStateSave_call botProcess)"

section \<open>Notions used to state the properties\<close>

text \<open>
  The warnings a pass may still emit, plus those already emitted: a pass never raises it.
\<close>

definition budget :: "warn_state \<Rightarrow> nat" where
  "budget w = length (warnings w) + (if warned w then 0 else 1)"

text \<open>Every object of the tree has a constructor.\<close>

fun has_constructors :: "jsval \<Rightarrow> bool" where
  "has_constructors (Arr items) = list_all has_constructors items"
| "has_constructors (Obj c props) = (c \<noteq> None \<and> list_all (\<lambda>p. has_constructors (snd p)) props)"
| "has_constructors _ = True"

text \<open>
  The effective persist flag as the specification words it: the call-site value when one is
  given, else the fork's own default, else false.
\<close>

definition effective_persist :: "bool option \<Rightarrow> bool option \<Rightarrow> bool" where
  "effective_persist call_site fork_default =
     (case call_site of
        Some b \<Rightarrow> b
      | None \<Rightarrow> (case fork_default of Some b \<Rightarrow> b | None \<Rightarrow> False))"

text \<open>
  The events that end the wait of \<^verbatim>\<open>getStateSave\<close>: a fault, or a message that
  \<^verbatim>\<open>isStateMessage\<close> accepts.
\<close>

fun decisive :: "channel_event \<Rightarrow> bool" where
  "decisive (Message message) = isStateMessage message"
| "decisive (Fault e) = True"

text \<open>
  A chain of \<^verbatim>\<open>fork\<close> calls on a handle, \<^verbatim>\<open>root.fork(p1, o1).fork(p2, o2)...\<close>, and the prefix
  path it stands for: the root's prefix followed by the local prefixes.
\<close>

definition fork_chain :: "State \<Rightarrow> (string \<times> StateOptions option) list \<Rightarrow> State" where
  "fork_chain root steps = foldl (\<lambda>this (localPrefix, options). fork this localPrefix options) root steps"

definition prefix_path :: "State \<Rightarrow> (string \<times> StateOptions option) list \<Rightarrow> string list" where
  "prefix_path root steps = fprefix root # map fst steps"

text \<open>
  A name holds the separator when two underscores follow each other in it. A name is
  \<open>clean\<close> when it does not hold the separator and does not end in an underscore.
  \<open>join\<close> puts the separator between the names of a path.
\<close>

fun contains_separator :: "string \<Rightarrow> bool" where
  "contains_separator (a # b # cs) =
     ((a = CHR ''_'' \<and> b = CHR ''_'') \<or> contains_separator (b # cs))"
| "contains_separator _ = False"

definition clean :: "string \<Rightarrow> bool" where
  "clean s = (\<not> contains_separator s \<and> \<not> (s \<noteq> [] \<and> last s = CHR ''_''))"

fun join :: "string list \<Rightarrow> string" where
  "join [] = []"
| "join [x] = x"
| "join (x # y # r) = template x (join (y # r))"

section \<open>Properties\<close>

subsection \<open>The Sanitizer\<close>

lemma budget_warn_once: "budget (warn_once v w) = budget w"
  by (simp add: budget_def warn_once_def)

lemma budget_mono:
  "budget (snd (removeInstances_from v w)) \<le> budget w"
  "budget (snd (map_items xs w)) \<le> budget w"
  "budget (snd (for_in ps acc w)) \<le> budget w"
proof (induction v w and xs w and ps acc w rule: removeInstances_from_map_items_for_in.induct)
  case (2 items w)
  then show ?case by (auto simp: budget_warn_once split: prod.splits sum.splits)
next
  case (4 n props w)
  then show ?case by (auto simp: budget_warn_once split: prod.splits sum.splits)
next
  case (11 item items w)
  then show ?case by (fastforce split: prod.splits sum.splits)
next
  case (13 key v props result w)
  then show ?case by (fastforce split: prod.splits sum.splits)
qed simp_all

text \<open>
  C7. One top-level call of \<^verbatim>\<open>removeInstances\<close> calls \<^verbatim>\<open>logger.warn\<close> at most once, however
  many functions and instances the value holds and however deep they lie, and also when
  the call ends in a throw.
\<close>

theorem removeInstances_at_most_one_warning:
  "length (warnings (snd (removeInstances v))) \<le> 1"
proof -
  let ?w0 = "\<lparr>warned = False, warnings = []\<rparr>"
  have "length (warnings (snd (removeInstances_from v ?w0)))
          \<le> budget (snd (removeInstances_from v ?w0))"
    by (simp add: budget_def)
  also have "\<dots> \<le> budget ?w0" by (rule budget_mono)
  also have "\<dots> = 1" by (simp add: budget_def)
  finally show ?thesis by (simp add: removeInstances_def)
qed

theorem removeInstances_at_most_one_warning_witness:
  "length (warnings (snd (removeInstances
      (Arr [Arr [Arr [Obj (Some ''Poll'') [], Obj (Some ''Vote'') []]], Func ''f'']))))
   \<le> 1"
  using removeInstances_at_most_one_warning
    [of "Arr [Arr [Arr [Obj (Some ''Poll'') [], Obj (Some ''Vote'') []]], Func ''f'']"]
  by simp

text \<open>Two instances three arrays deep: both are dropped, the first one is reported.\<close>

lemma nested_instances_warn_once:
  "removeInstances (Arr [Arr [Arr [Obj (Some ''Poll'') [], Obj (Some ''Vote'') []]], Func ''f''])
   = (Inr (Arr [Arr [Arr []]]), \<lparr>warned = True, warnings = [Obj (Some ''Poll'') []]\<rparr>)"
  by (simp add: removeInstances_def builtInTypes_def array_includes_def warn_once_def)

text \<open>
  C4. The claim is that \<^verbatim>\<open>removeInstances\<close> returns for every value and never throws. It
  throws a \<^verbatim>\<open>TypeError\<close> on an object without a constructor, such as
  \<^verbatim>\<open>Object.create(null)\<close>, alone or as a field of a plain object: the test
  \<^verbatim>\<open>value.constructor.name\<close> reads \<^verbatim>\<open>name\<close> of \<^verbatim>\<open>undefined\<close>.
\<close>

theorem removeInstances_throws_without_constructor:
  "fst (removeInstances (Obj None [])) =
     Inl (TypeError ''Cannot read properties of undefined (reading name)'')
   \<and> fst (removeInstances (Obj (Some ''Object'') [(''cache'', Obj None [])])) =
     Inl (TypeError ''Cannot read properties of undefined (reading name)'')"
  by (simp add: removeInstances_def builtInTypes_def array_includes_def)

text \<open>
  On every other tree the pass returns: a function and an object whose constructor is not
  built in become \<^verbatim>\<open>undefined\<close>.
\<close>

lemma returns_with_constructors:
  "has_constructors v \<Longrightarrow> \<exists>r. fst (removeInstances_from v w) = Inr r"
  "list_all has_constructors xs \<Longrightarrow> \<exists>r. fst (map_items xs w) = Inr r"
  "list_all (\<lambda>p. has_constructors (snd p)) ps \<Longrightarrow> \<exists>r. fst (for_in ps acc w) = Inr r"
proof (induction v w and xs w and ps acc w rule: removeInstances_from_map_items_for_in.induct)
  case (2 items w)
  then show ?case by (auto split: prod.splits sum.splits)
next
  case (4 n props w)
  then show ?case by (auto split: prod.splits sum.splits)
next
  case (11 item items w)
  then show ?case by (fastforce split: prod.splits sum.splits)
next
  case (13 key v props result w)
  then show ?case by (fastforce split: prod.splits sum.splits)
qed simp_all

lemma unsupported_degrade:
  "removeInstances (Func f) = (Inr Undefined, \<lparr>warned = False, warnings = []\<rparr>)"
  "\<not> array_includes builtInTypes n \<Longrightarrow>
     removeInstances (Obj (Some n) props) =
       (Inr Undefined, \<lparr>warned = True, warnings = [Obj (Some n) props]\<rparr>)"
  by (simp_all add: removeInstances_def warn_once_def)

subsection \<open>Reading and writing a plain object\<close>

lemma obj_set_plain:
  "key \<noteq> ''__proto__'' \<Longrightarrow> obj_set key v obj = obj\<lparr>own := AList.update key v (own obj)\<rparr>"
  by (simp add: obj_set_def)

lemma obj_get_obj_set_same: "key \<noteq> ''__proto__'' \<Longrightarrow> obj_get (obj_set key v obj) key = v"
  by (simp add: obj_set_plain obj_get_def update_conv')

lemma obj_get_obj_set_other:
  "key \<noteq> ''__proto__'' \<Longrightarrow> key' \<noteq> key \<Longrightarrow> obj_get (obj_set key v obj) key' = obj_get obj key'"
  by (simp add: obj_set_plain obj_get_def update_conv' split: option.splits)

lemma obj_get_absent:
  assumes "proto obj = ObjectPrototype" and "key \<notin> set (obj_keys obj)"
    and "key \<notin> set object_prototype_names"
  shows "obj_get obj key = Undefined"
proof -
  from assms(2) have "map_of (own obj) key = None"
    by (simp add: obj_keys_def map_of_eq_None_iff)
  moreover from assms(3) have "key \<noteq> ''__proto__''" "key \<noteq> ''constructor''"
    by (auto simp: object_prototype_names_def)
  ultimately show ?thesis
    using assms(1,3) by (simp add: obj_get_def object_prototype_member_def)
qed

lemma state_setState [simp]: "state (setState key v options w) = obj_set key v (state w)"
  by (simp add: setState_def Let_def)

lemma template_inject: "template a k = template b k \<longleftrightarrow> a = b"
  by (simp add: template_def)

subsection \<open>The table and the forks\<close>

text \<open>
  C10. The claim is that a key never written reads as \<^verbatim>\<open>undefined\<close>, and so does a key
  stored with \<^verbatim>\<open>undefined\<close>. The table is an object made by \<^verbatim>\<open>{}\<close>: on a fresh table
  \<^verbatim>\<open>getState('toString')\<close> and \<^verbatim>\<open>getState('constructor')\<close> give the functions inherited from
  \<^verbatim>\<open>Object.prototype\<close>, and \<^verbatim>\<open>setState('__proto__', undefined)\<close> stores nothing, after which
  \<^verbatim>\<open>getState('__proto__')\<close> gives \<^verbatim>\<open>Object.prototype\<close> itself.
\<close>

theorem getState_reads_inherited_members:
  "getState ''toString'' initial_world = Func ''toString''
   \<and> getState ''constructor'' initial_world = Func ''Object''
   \<and> obj_keys (state (setState ''__proto__'' Undefined None initial_world)) = []
   \<and> getState ''__proto__'' (setState ''__proto__'' Undefined None initial_world)
       = Obj (Some ''Object'') []"
  by (simp add: getState_def obj_get_def obj_set_def obj_keys_def initial_world_def
      empty_object_def object_prototype_member_def object_prototype_names_def setter_reachable_def
      is_object_def)

text \<open>
  Away from the names of \<^verbatim>\<open>Object.prototype\<close>, and while the table still has that
  prototype, a key that the table does not hold reads as \<^verbatim>\<open>undefined\<close>; and a key other
  than \<^verbatim>\<open>__proto__\<close> stored with \<^verbatim>\<open>undefined\<close> reads as \<^verbatim>\<open>undefined\<close>.
\<close>

lemma getState_absent_plain_key:
  "proto (state w) = ObjectPrototype \<Longrightarrow> key \<notin> set (obj_keys (state w)) \<Longrightarrow>
   key \<notin> set object_prototype_names \<Longrightarrow> getState key w = Undefined"
  by (simp add: getState_def obj_get_absent)

lemma getState_stored_undefined:
  "key \<noteq> ''__proto__'' \<Longrightarrow> getState key (setState key Undefined options w) = Undefined"
  by (simp add: getState_def obj_get_obj_set_same)

text \<open>
  C9. The claim is that a write through a fork with prefix \<open>P1\<close> leaves what a fork with
  another prefix \<open>P2\<close> reads as it was. The key composed for the write may be
  \<^verbatim>\<open>__proto__\<close>: through the fork with the empty prefix and local key \<^verbatim>\<open>proto__\<close>, or through
  the fork \<^verbatim>\<open>__proto\<close> and the empty local key. The assignment then replaces the prototype
  of the table, and the fork \<^verbatim>\<open>a\<close> reads under the same local key the value that the
  new prototype holds, where it read \<^verbatim>\<open>undefined\<close> before.
\<close>

theorem fork_write_to_proto_changes_other_fork:
  "fprefix (fst (State_fork [] None initial_world))
     \<noteq> fprefix (fst (State_fork ''a'' None initial_world))
   \<and> State_getState (fst (State_fork ''a'' None initial_world)) ''proto__'' initial_world
     = Undefined
   \<and> State_getState (fst (State_fork ''a'' None initial_world)) ''proto__''
       (State_setState (fst (State_fork [] None initial_world)) ''proto__''
          (Obj (Some ''Object'') [(''a__proto__'', Num 1)]) None initial_world)
     = Num 1
   \<and> fprefix (fst (State_fork ''__proto'' None initial_world))
     \<noteq> fprefix (fst (State_fork ''a'' None initial_world))
   \<and> State_getState (fst (State_fork ''a'' None initial_world)) [] initial_world = Undefined
   \<and> State_getState (fst (State_fork ''a'' None initial_world)) []
       (State_setState (fst (State_fork ''__proto'' None initial_world)) []
          (Obj (Some ''Object'') [(''a__'', Num 1)]) None initial_world)
     = Num 1"
  by (simp add: State_fork_def State_getState_def State_setState_def getState_def setState_def
      template_def obj_get_def obj_set_def initial_world_def empty_object_def
      object_prototype_member_def object_prototype_names_def setter_reachable_def is_object_def
      value_member_def enumerable_props_def opt_persist_def nullish_def truthy_def Let_def)

text \<open>
  When the key composed for the write is not \<^verbatim>\<open>__proto__\<close>, the write leaves what any fork
  with another prefix reads under the same local key as it was.
\<close>

lemma forks_do_not_interfere_off_proto:
  "fprefix f1 \<noteq> fprefix f2 \<Longrightarrow> template (fprefix f1) k \<noteq> ''__proto__'' \<Longrightarrow>
   State_getState f2 k (State_setState f1 k v options w) = State_getState f2 k w"
  by (simp add: State_getState_def State_setState_def getState_def obj_get_obj_set_other
      template_inject)

lemma truthy_nullish:
  "truthy (nullish a b) = effective_persist a b"
  by (simp add: truthy_def nullish_def effective_persist_def split: option.splits)

text \<open>
  C6. A set through a fork starts a run of the persistence bridge exactly when the
  effective persist flag is true: the call-site value when given (an explicit false wins
  over a fork default of true), else the fork's default, else false.
\<close>

theorem setState_effective_persist:
  "runs (State_setState this key v options w) =
     (if effective_persist (opt_persist options) (opt_persist (foptions this))
      then runs w @ [\<lparr>run_key = template (fprefix this) key, run_value = v, phase = AwaitingGet\<rparr>]
      else runs w)
   \<and> effective_persist (Some False) (Some True) = False
   \<and> effective_persist (Some b) d = b
   \<and> effective_persist None (Some b) = b
   \<and> effective_persist None None = False"
  by (simp add: State_setState_def setState_def Let_def opt_persist_def truthy_nullish)
    (simp add: effective_persist_def)

theorem setState_effective_persist_witness:
  "runs (State_setState \<lparr>fprefix = ''polls'', foptions = Some \<lparr>persist = Some True\<rparr>\<rparr>
           ''open'' (Num 1) (Some \<lparr>persist = Some False\<rparr>) initial_world) = []
   \<and> runs (State_setState \<lparr>fprefix = ''polls'', foptions = Some \<lparr>persist = Some True\<rparr>\<rparr>
           ''open'' (Num 1) None initial_world)
     = [\<lparr>run_key = ''polls__open'', run_value = Num 1, phase = AwaitingGet\<rparr>]"
  using setState_effective_persist
    [of "\<lparr>fprefix = ''polls'', foptions = Some \<lparr>persist = Some True\<rparr>\<rparr>" "''open''" "Num 1"
        "Some \<lparr>persist = Some False\<rparr>" initial_world "False" "None"]
    setState_effective_persist
    [of "\<lparr>fprefix = ''polls'', foptions = Some \<lparr>persist = Some True\<rparr>\<rparr>" "''open''" "Num 1"
        "None" initial_world "False" "None"]
  by (simp add: effective_persist_def opt_persist_def initial_world_def template_def)

subsection \<open>The persistence bridge and \<^verbatim>\<open>clearState\<close>\<close>

lemma fold_delete_all:
  "set (obj_keys obj) \<subseteq> set ks \<Longrightarrow>
   fold (\<lambda>key st. obj_delete key st) ks obj = obj\<lparr>own := []\<rparr>"
proof (induction ks arbitrary: obj)
  case Nil
  then show ?case by (simp add: obj_keys_def)
next
  case (Cons k ks)
  have "set (obj_keys (obj_delete k obj)) \<subseteq> set ks"
    using Cons.prems by (auto simp: obj_keys_def obj_delete_def delete_keys)
  with Cons.IH[of "obj_delete k obj"] show ?case
    by (simp add: obj_delete_def)
qed

lemma state_clearState [simp]: "state (clearState w) = (state w)\<lparr>own := []\<rparr>"
  by (simp add: clearState_def fold_delete_all)

lemma resume_writes:
  "i < length (runs w) \<Longrightarrow> phase (runs w ! i) = GotSnapshot r \<Longrightarrow>
   run_key (runs w ! i) \<noteq> ''__proto__'' \<Longrightarrow>
   flashcore (persistState_resume i w) =
     Some (AList.update (run_key (runs w ! i)) (run_value (runs w ! i))
             (case r of None \<Rightarrow> [] | Some s \<Rightarrow> s))"
  by (simp add: persistState_resume_def Let_def obj_set_plain empty_object_def
      split: option.splits)

lemma get_resolves_run:
  "i < length (runs w) \<Longrightarrow> phase (runs w ! i) = AwaitingGet \<Longrightarrow>
   runs (flashcore_get_resolves i w) ! i = (runs w ! i)\<lparr>phase := GotSnapshot (flashcore w)\<rparr>
   \<and> length (runs (flashcore_get_resolves i w)) = length (runs w)
   \<and> flashcore (flashcore_get_resolves i w) = flashcore w"
  by (simp add: flashcore_get_resolves_def)

lemma complete_writes:
  "i < length (runs w) \<Longrightarrow> phase (runs w ! i) = AwaitingGet \<Longrightarrow>
   run_key (runs w ! i) \<noteq> ''__proto__'' \<Longrightarrow>
   flashcore (persistState_complete i w) =
     Some (AList.update (run_key (runs w ! i)) (run_value (runs w ! i))
             (case flashcore w of None \<Rightarrow> [] | Some s \<Rightarrow> s))"
  unfolding persistState_complete_def
  using get_resolves_run[of i w] resume_writes[of i "flashcore_get_resolves i w" "flashcore w"]
  by simp

text \<open>
  C8. The claim is that every persistent set keeps all keys persisted before. Two
  persistent sets made one after the other both ask the backend for the snapshot before
  either writes; each writes back what it was given plus its own key, so the second write
  drops the first key, which the backend held in between.
\<close>

theorem snapshot_clobbered_by_overlapping_runs:
  "flashcore (persistState_resume 0
      (flashcore_get_resolves 1 (flashcore_get_resolves 0
        (setState ''b'' (Num 2) (Some \<lparr>persist = Some True\<rparr>)
          (setState ''a'' (Num 1) (Some \<lparr>persist = Some True\<rparr>) initial_world)))))
     = Some [(''a'', Num 1)]
   \<and> flashcore (persistState_resume 1 (persistState_resume 0
      (flashcore_get_resolves 1 (flashcore_get_resolves 0
        (setState ''b'' (Num 2) (Some \<lparr>persist = Some True\<rparr>)
          (setState ''a'' (Num 1) (Some \<lparr>persist = Some True\<rparr>) initial_world))))))
     = Some [(''b'', Num 2)]"
  by (simp add: persistState_resume_def flashcore_get_resolves_def setState_def initial_world_def
      opt_persist_def truthy_def Let_def obj_set_def empty_object_def)

text \<open>
  C8, as the code has it. A run whose key is not \<^verbatim>\<open>__proto__\<close> writes back the snapshot it
  was given with its one key added or overwritten and every other key as it was; so such a
  run that is answered and resumes with no other write in between keeps every key of the
  persisted snapshot. \<^verbatim>\<open>clearState\<close> deletes every own key of the table and leaves the
  persisted snapshot and the runs in flight as they are; afterwards, while the table still
  has the prototype it was made with, every key that is not the name of a member of
  \<^verbatim>\<open>Object.prototype\<close> reads as \<^verbatim>\<open>undefined\<close>.
\<close>

theorem snapshot_grows_and_clear_keeps_it:
  "(i < length (runs w) \<and> phase (runs w ! i) = GotSnapshot r
      \<and> run_key (runs w ! i) \<noteq> ''__proto__'' \<longrightarrow>
      (\<exists>snap. flashcore (persistState_resume i w) = Some snap \<and>
         map_of snap = (map_of (case r of None \<Rightarrow> [] | Some s \<Rightarrow> s))
                         (run_key (runs w ! i) \<mapsto> run_value (runs w ! i))))
   \<and> (i < length (runs w) \<and> phase (runs w ! i) = AwaitingGet
      \<and> run_key (runs w ! i) \<noteq> ''__proto__'' \<longrightarrow>
      (\<exists>snap. flashcore (persistState_complete i w) = Some snap \<and>
         map_of snap = (map_of (case flashcore w of None \<Rightarrow> [] | Some s \<Rightarrow> s))
                         (run_key (runs w ! i) \<mapsto> run_value (runs w ! i))))
   \<and> obj_keys (state (clearState w)) = []
   \<and> (proto (state w) = ObjectPrototype \<and> key \<notin> set object_prototype_names \<longrightarrow>
        getState key (clearState w) = Undefined)
   \<and> flashcore (clearState w) = flashcore w
   \<and> runs (clearState w) = runs w"
proof -
  have a: "obj_keys (state (clearState w)) = []"
    by (simp add: obj_keys_def)
  have b: "getState key (clearState w) = Undefined"
    if "proto (state w) = ObjectPrototype" "key \<notin> set object_prototype_names"
    using that a by (intro getState_absent_plain_key) simp_all
  have c: "flashcore (clearState w) = flashcore w" "runs (clearState w) = runs w"
    by (simp_all add: clearState_def)
  show ?thesis
    using a b c by (simp add: resume_writes complete_writes update_conv')
qed

theorem snapshot_grows_and_clear_keeps_it_witness:
  "flashcore (persistState_complete 1
      (setState ''b'' (Num 2) (Some \<lparr>persist = Some True\<rparr>)
        (persistState_complete 0
          (setState ''a'' (Num 1) (Some \<lparr>persist = Some True\<rparr>) initial_world))))
     = Some [(''a'', Num 1), (''b'', Num 2)]
   \<and> getState ''a'' (clearState (persistState_complete 0
          (setState ''a'' (Num 1) (Some \<lparr>persist = Some True\<rparr>) initial_world))) = Undefined
   \<and> flashcore (clearState (persistState_complete 0
          (setState ''a'' (Num 1) (Some \<lparr>persist = Some True\<rparr>) initial_world)))
     = Some [(''a'', Num 1)]"
  using snapshot_grows_and_clear_keeps_it
    [of 1 "setState ''b'' (Num 2) (Some \<lparr>persist = Some True\<rparr>)
        (persistState_complete 0
          (setState ''a'' (Num 1) (Some \<lparr>persist = Some True\<rparr>) initial_world))" None "''a''"]
    snapshot_grows_and_clear_keeps_it
    [of 0 "persistState_complete 0
          (setState ''a'' (Num 1) (Some \<lparr>persist = Some True\<rparr>) initial_world)" None "''a''"]
  by (simp add: persistState_complete_def persistState_resume_def flashcore_get_resolves_def
      setState_def initial_world_def opt_persist_def truthy_def Let_def clearState_def
      obj_set_def empty_object_def object_prototype_names_def)

subsection \<open>What is persisted and sent; nested forks\<close>





text \<open>
  C3. The claim is that the instance method \<^verbatim>\<open>fork\<close> composes the prefix, registers it and
  lets the child inherit the parent's persistence default. For the fork \<^verbatim>\<open>polls\<close> created
  with \<^verbatim>\<open>persist: true\<close> and its child \<^verbatim>\<open>detail\<close> created without options: the prefix is
  composed, the registry lists \<^verbatim>\<open>polls\<close> only, the child has no default, and a set through
  the child starts no run.
\<close>

theorem nested_fork_not_registered_nor_inheriting:
  "fprefix (fork (fst (State_fork ''polls'' (Some \<lparr>persist = Some True\<rparr>) initial_world))
             ''detail'' None) = ''polls__detail''
   \<and> listForks (snd (State_fork ''polls'' (Some \<lparr>persist = Some True\<rparr>) initial_world))
       = [''polls'']
   \<and> opt_persist (foptions (fst (State_fork ''polls'' (Some \<lparr>persist = Some True\<rparr>)
                                   initial_world))) = Some True
   \<and> opt_persist (foptions (fork (fst (State_fork ''polls'' (Some \<lparr>persist = Some True\<rparr>)
                                          initial_world)) ''detail'' None)) = None
   \<and> runs (State_setState
             (fork (fst (State_fork ''polls'' (Some \<lparr>persist = Some True\<rparr>) initial_world))
                ''detail'' None)
             ''open'' (Num 1) None
             (snd (State_fork ''polls'' (Some \<lparr>persist = Some True\<rparr>) initial_world))) = []"
  by (simp add: fork_def State_fork_def listForks_def set_add_def initial_world_def template_def
      opt_persist_def State_setState_def setState_def nullish_def truthy_def Let_def)

lemma opt_persist_simps:
  "opt_persist None = None" "opt_persist (Some r) = persist r"
  by (simp_all add: opt_persist_def)

text \<open>
  C3, as the code has it. The child's prefix is the parent's prefix, the separator and
  the local prefix, and its options are the options given to \<^verbatim>\<open>fork\<close> and nothing else:
  with no persistence given there and none at the call site, a set through the child
  starts no run, whatever the parent's default.
\<close>

theorem fork_child_prefix_and_options:
  "fprefix (fork this localPrefix childOptions) = fprefix this @ ''__'' @ localPrefix
   \<and> foptions (fork this localPrefix childOptions) = childOptions
   \<and> (opt_persist childOptions = None \<and> opt_persist options = None \<longrightarrow>
        runs (State_setState (fork this localPrefix childOptions) key v options w) = runs w)"
  by (simp add: fork_def template_def State_setState_def setState_def nullish_def truthy_def
      Let_def opt_persist_simps)

theorem fork_child_prefix_and_options_witness:
  "opt_persist None = None
   \<and> fprefix (fork \<lparr>fprefix = ''polls'', foptions = Some \<lparr>persist = Some True\<rparr>\<rparr> ''detail'' None)
       = ''polls__detail''
   \<and> runs (State_setState
            (fork \<lparr>fprefix = ''polls'', foptions = Some \<lparr>persist = Some True\<rparr>\<rparr> ''detail'' None)
            ''open'' (Num 1) None initial_world) = runs initial_world"
  using fork_child_prefix_and_options
    [of "\<lparr>fprefix = ''polls'', foptions = Some \<lparr>persist = Some True\<rparr>\<rparr>" "''detail''" None None
        "''open''" "Num 1" initial_world]
  by (simp add: opt_persist_def)

subsection \<open>Cross-process save\<close>

lemma deliver_idle: "\<not> decisive ev \<Longrightarrow> deliver ev r = r"
  by (cases ev) auto

lemma fold_deliver_idle: "\<forall>ev \<in> set evs. \<not> decisive ev \<Longrightarrow> fold deliver evs r = r"
  by (induction evs arbitrary: r) (simp_all add: deliver_idle)

lemma deliver_settled: "outcome r \<noteq> Pending \<Longrightarrow> outcome (deliver ev r) = outcome r"
  by (cases ev) (auto simp: settle_def)

lemma fold_deliver_settled:
  "outcome r \<noteq> Pending \<Longrightarrow> outcome (fold deliver evs r) = outcome r"
  by (induction evs arbitrary: r) (simp_all add: deliver_settled)

lemma deliver_unlistened:
  "\<not> message_listener r \<Longrightarrow> \<not> error_listener r \<Longrightarrow> deliver ev r = r"
  by (cases ev) auto

lemma fold_deliver_unlistened:
  "\<not> message_listener r \<Longrightarrow> \<not> error_listener r \<Longrightarrow> fold deliver evs r = r"
  by (induction evs) (simp_all add: deliver_unlistened)

lemma getStateSave_idle:
  "\<forall>ev \<in> set pre. \<not> decisive ev \<Longrightarrow> getStateSave p pre = getStateSave_call p"
  by (simp add: getStateSave_def fold_deliver_idle)

text \<open>
  C5. The claim is that, with a worker and no fault, the call resolves with the payload of
  the worker's next \<^verbatim>\<open>state-save\<close> message. \<^verbatim>\<open>isStateMessage\<close> accepts \<^verbatim>\<open>state-load\<close> as
  well: when a \<^verbatim>\<open>state-load\<close> message comes first, the call resolves with its payload and
  not with that of the \<^verbatim>\<open>state-save\<close> message after it.
\<close>

theorem getStateSave_takes_state_load:
  "outcome (getStateSave (Some 1)
     [Message \<lparr>msg_type = ''state-load'', msg_state = Some [(''a'', Num 1)]\<rparr>,
      Message \<lparr>msg_type = ''state-save'', msg_state = Some [(''b'', Num 2)]\<rparr>])
   = Resolved (Some [(''a'', Num 1)])
   \<and> outcome (getStateSave (Some 1)
     [Message \<lparr>msg_type = ''state-load'', msg_state = Some [(''a'', Num 1)]\<rparr>,
      Message \<lparr>msg_type = ''state-save'', msg_state = Some [(''b'', Num 2)]\<rparr>])
   \<noteq> Resolved (Some [(''b'', Num 2)])"
  by (simp add: getStateSave_def getStateSave_call_def isStateMessage_def settle_def)

text \<open>
  C5, as the code has it. Without a worker the call resolves at once with the empty
  mapping. With a worker: if a fault comes before any message that \<^verbatim>\<open>isStateMessage\<close>
  accepts, the handler unregisters the message listener and then rejects with the fault,
  and nothing is called after that; if such a message comes first, the call resolves with
  its \<^verbatim>\<open>state\<close> field; and while neither has come the promise stays pending.
\<close>

theorem getStateSave_outcome:
  "outcome (getStateSave None events) = Resolved (Some [])
   \<and> ((\<forall>ev \<in> set pre. \<not> decisive ev) \<longrightarrow>
        outcome (getStateSave (Some p) (pre @ Fault e # post)) = Rejected e
        \<and> calls (getStateSave (Some p) (pre @ Fault e # post)) =
            calls (getStateSave_call (Some p)) @ [Off_message, Reject e]
        \<and> \<not> message_listener (getStateSave (Some p) (pre @ Fault e # post)))
   \<and> ((\<forall>ev \<in> set pre. \<not> decisive ev) \<and> isStateMessage message \<longrightarrow>
        outcome (getStateSave (Some p) (pre @ Message message # post)) =
          Resolved (msg_state message))
   \<and> ((\<forall>ev \<in> set events. \<not> decisive ev) \<longrightarrow>
        outcome (getStateSave (Some p) events) = Pending)"
proof -
  let ?start = "getStateSave_call (Some p)"
  have none: "outcome (getStateSave None events) = Resolved (Some [])"
    by (simp add: getStateSave_def getStateSave_call_def fold_deliver_unlistened)
  have fault: "outcome (getStateSave (Some p) (pre @ Fault e # post)) = Rejected e
        \<and> calls (getStateSave (Some p) (pre @ Fault e # post)) =
            calls ?start @ [Off_message, Reject e]
        \<and> \<not> message_listener (getStateSave (Some p) (pre @ Fault e # post))"
    if idle: "\<forall>ev \<in> set pre. \<not> decisive ev"
  proof -
    have "getStateSave (Some p) (pre @ Fault e # post) =
            fold deliver post (deliver (Fault e) ?start)"
      using idle by (simp add: getStateSave_def fold_deliver_idle)
    also have "\<dots> = deliver (Fault e) ?start"
      by (rule fold_deliver_unlistened) (simp_all add: getStateSave_call_def)
    finally show ?thesis
      by (simp add: getStateSave_call_def settle_def)
  qed
  have msg: "outcome (getStateSave (Some p) (pre @ Message message # post)) =
          Resolved (msg_state message)"
    if idle: "\<forall>ev \<in> set pre. \<not> decisive ev" and sm: "isStateMessage message"
  proof -
    have "getStateSave (Some p) (pre @ Message message # post) =
            fold deliver post (deliver (Message message) ?start)"
      using idle by (simp add: getStateSave_def fold_deliver_idle)
    moreover have "outcome (deliver (Message message) ?start) = Resolved (msg_state message)"
      using sm by (simp add: getStateSave_call_def settle_def)
    ultimately show ?thesis
      by (simp add: fold_deliver_settled)
  qed
  have pend: "outcome (getStateSave (Some p) events) = Pending"
    if "\<forall>ev \<in> set events. \<not> decisive ev"
    using that by (simp add: getStateSave_idle getStateSave_call_def)
  from none fault msg pend show ?thesis by blast
qed

theorem getStateSave_outcome_witness:
  "outcome (getStateSave None [Fault ''closed'']) = Resolved (Some [])
   \<and> outcome (getStateSave (Some 1)
        [Message \<lparr>msg_type = ''ready'', msg_state = None\<rparr>, Fault ''closed'',
         Message \<lparr>msg_type = ''state-save'', msg_state = Some []\<rparr>]) = Rejected ''closed''
   \<and> outcome (getStateSave (Some 1)
        [Message \<lparr>msg_type = ''ready'', msg_state = None\<rparr>,
         Message \<lparr>msg_type = ''state-save'', msg_state = Some []\<rparr>, Fault ''closed''])
       = Resolved (Some [])
   \<and> outcome (getStateSave (Some 1) [Message \<lparr>msg_type = ''ready'', msg_state = None\<rparr>])
       = Pending"
  using getStateSave_outcome
    [of "[Fault ''closed'']" "[Message \<lparr>msg_type = ''ready'', msg_state = None\<rparr>]" 1
        "''closed''" "[Message \<lparr>msg_type = ''state-save'', msg_state = Some []\<rparr>]"
        "\<lparr>msg_type = ''state-save'', msg_state = Some []\<rparr>"]
    getStateSave_outcome
    [of "[Message \<lparr>msg_type = ''ready'', msg_state = None\<rparr>]"
        "[Message \<lparr>msg_type = ''ready'', msg_state = None\<rparr>]" 1
        "''closed''" "[Fault ''closed'']"
        "\<lparr>msg_type = ''state-save'', msg_state = Some []\<rparr>"]
  by (simp add: isStateMessage_def)

subsection \<open>Prefix composition\<close>

lemma contains_separator_Cons: "contains_separator s \<Longrightarrow> contains_separator (a # s)"
  by (cases s) auto

lemma clean_tl: "clean (a # s) \<Longrightarrow> clean s"
  by (auto simp: clean_def contains_separator_Cons)

lemma contains_separator_append: "contains_separator (q @ CHR ''_'' # CHR ''_'' # r)"
  by (induction q rule: contains_separator.induct) auto

lemma first_separator:
  "clean p \<Longrightarrow> clean q \<Longrightarrow> p @ ''__'' @ r = q @ ''__'' @ r' \<Longrightarrow> p = q \<and> r = r'"
proof (induction p arbitrary: q)
  case Nil
  show ?case
  proof (cases q)
    case Nil
    with Nil.prems show ?thesis by simp
  next
    case (Cons c q')
    with Nil.prems show ?thesis
      by (cases q') (auto simp: clean_def)
  qed
next
  case (Cons a p')
  show ?case
  proof (cases q)
    case Nil
    with Cons.prems show ?thesis
      by (cases p') (auto simp: clean_def)
  next
    case (Cons c q')
    with Cons.prems have "a = c" and eq: "p' @ ''__'' @ r = q' @ ''__'' @ r'" by auto
    from Cons.prems Cons have "clean p'" "clean q'" by (auto dest: clean_tl)
    with Cons.IH eq have "p' = q' \<and> r = r'" by blast
    with \<open>a = c\<close> Cons show ?thesis by simp
  qed
qed

lemma join_inj:
  "\<forall>x \<in> set (butlast xs). clean x \<Longrightarrow> \<forall>y \<in> set (butlast ys). clean y \<Longrightarrow>
   \<not> contains_separator (last xs) \<Longrightarrow> \<not> contains_separator (last ys) \<Longrightarrow>
   xs \<noteq> [] \<Longrightarrow> ys \<noteq> [] \<Longrightarrow> join xs = join ys \<Longrightarrow> xs = ys"
proof (induction xs arbitrary: ys rule: join.induct)
  case 1
  then show ?case by simp
next
  case (2 x)
  show ?case
  proof (cases ys rule: join.cases)
    case (3 y z r)
    with 2 have "contains_separator x"
      by (simp add: template_def contains_separator_append)
    with 2 show ?thesis by simp
  qed (use 2 in auto)
next
  case (3 x y r)
  show ?case
  proof (cases ys rule: join.cases)
    case 1
    with 3 show ?thesis by simp
  next
    case (2 z)
    with "3.prems" have "z = x @ CHR ''_'' # CHR ''_'' # join (y # r)"
      by (simp add: template_def)
    then have "contains_separator z"
      by (simp add: contains_separator_append)
    with "3.prems" 2 show ?thesis by simp
  next
    case (3 x' y' r')
    from "3.prems" 3 have cl: "clean x" "clean x'" by auto
    from "3.prems" 3 have "x @ ''__'' @ join (y # r) = x' @ ''__'' @ join (y' # r')"
      by (simp add: template_def)
    with cl have xx: "x = x'" and jj: "join (y # r) = join (y' # r')"
      using first_separator by blast+
    have "y # r = y' # r'"
      using "3.IH"[of "y' # r'"] "3.prems" 3 jj by auto
    with xx 3 show ?thesis by simp
  qed
qed


lemma join_snoc: "xs \<noteq> [] \<Longrightarrow> join (xs @ [k]) = template (join xs) k"
  by (induction xs rule: join.induct) (auto simp: template_def)

lemma foldl_template: "foldl template p ps = join (p # ps)"
proof (induction ps rule: rev_induct)
  case Nil
  show ?case by simp
next
  case (snoc k ps)
  have "join (p # ps @ [k]) = template (join (p # ps)) k"
    using join_snoc[of "p # ps" k] by simp
  with snoc show ?case by simp
qed


lemma fprefix_fork_chain:
  "fprefix (fork_chain root steps) = join (prefix_path root steps)"
proof -
  have "fprefix (foldl (\<lambda>this (l, opts). fork this l opts) root steps)
          = foldl template (fprefix root) (map fst steps)"
    by (induction steps arbitrary: root) (auto simp: fork_def)
  then show ?thesis
    by (simp add: fork_chain_def prefix_path_def foldl_template)
qed

lemma join_inj_clean:
  assumes "\<forall>x \<in> set xs. clean x" "\<forall>y \<in> set ys. clean y"
    and "\<not> contains_separator k" "\<not> contains_separator k'"
    and "join (xs @ [k]) = join (ys @ [k'])"
  shows "xs = ys \<and> k = k'"
proof -
  have "xs @ [k] = ys @ [k']"
    using assms by (intro join_inj) simp_all
  then show ?thesis by simp
qed

text \<open>
  C2. The claim is that different prefix paths give different composed strings. The
  separator may occur in a prefix, or arise where a name ends or begins with an
  underscore: the paths \<^verbatim>\<open>a__b / c\<close> and \<^verbatim>\<open>a / b__c\<close> compose to the same prefix, and a
  value written under \<^verbatim>\<open>k\<close> through \<^verbatim>\<open>a_ / b\<close> is read under \<^verbatim>\<open>k\<close> through \<^verbatim>\<open>a / _b\<close>.
\<close>

theorem distinct_fork_chains_collide:
  "prefix_path (fst (State_fork ''a__b'' None initial_world)) [(''c'', None)]
     \<noteq> prefix_path (fst (State_fork ''a'' None initial_world)) [(''b__c'', None)]
   \<and> fprefix (fork_chain (fst (State_fork ''a__b'' None initial_world)) [(''c'', None)])
     = fprefix (fork_chain (fst (State_fork ''a'' None initial_world)) [(''b__c'', None)])
   \<and> prefix_path (fst (State_fork ''a_'' None initial_world)) [(''b'', None)]
     \<noteq> prefix_path (fst (State_fork ''a'' None initial_world)) [(''_b'', None)]
   \<and> State_getState (fork_chain (fst (State_fork ''a'' None initial_world)) [(''_b'', None)])
       ''k''
       (State_setState (fork_chain (fst (State_fork ''a_'' None initial_world)) [(''b'', None)])
          ''k'' (Num 1) None initial_world)
     = Num 1"
  by (simp add: prefix_path_def fork_chain_def State_fork_def fork_def template_def
      State_getState_def State_setState_def getState_def setState_def obj_get_def obj_set_def
      empty_object_def initial_world_def opt_persist_def nullish_def truthy_def Let_def)

text \<open>
  C2, as the code has it. Composition is associative. When every prefix of two paths is
  clean, different paths compose to different prefixes, and keys written through them
  differ for all local keys that do not hold the separator.
\<close>

theorem fork_prefix_composition:
  "template (template a b) c = template a (template b c)
   \<and> ((\<forall>x \<in> set (prefix_path r1 steps1). clean x)
        \<and> (\<forall>y \<in> set (prefix_path r2 steps2). clean y)
        \<and> prefix_path r1 steps1 \<noteq> prefix_path r2 steps2 \<longrightarrow>
        fprefix (fork_chain r1 steps1) \<noteq> fprefix (fork_chain r2 steps2)
        \<and> (\<not> contains_separator k \<and> \<not> contains_separator k' \<longrightarrow>
             template (fprefix (fork_chain r1 steps1)) k
               \<noteq> template (fprefix (fork_chain r2 steps2)) k'))"
proof -
  have assoc: "template (template a b) c = template a (template b c)"
    by (simp add: template_def)
  have ne: "prefix_path r steps \<noteq> []" for r steps
    by (simp add: prefix_path_def)
  have keys: "template (fprefix (fork_chain r1 steps1)) k
               \<noteq> template (fprefix (fork_chain r2 steps2)) k'"
    if "\<forall>x \<in> set (prefix_path r1 steps1). clean x"
       "\<forall>y \<in> set (prefix_path r2 steps2). clean y"
       "prefix_path r1 steps1 \<noteq> prefix_path r2 steps2"
       "\<not> contains_separator k" "\<not> contains_separator k'"
    for k k'
  proof
    assume "template (fprefix (fork_chain r1 steps1)) k
              = template (fprefix (fork_chain r2 steps2)) k'"
    then have "join (prefix_path r1 steps1 @ [k]) = join (prefix_path r2 steps2 @ [k'])"
      by (simp add: fprefix_fork_chain join_snoc ne)
    with that show False
      using join_inj_clean by blast
  qed
  have prefixes: "fprefix (fork_chain r1 steps1) \<noteq> fprefix (fork_chain r2 steps2)"
    if "\<forall>x \<in> set (prefix_path r1 steps1). clean x"
       "\<forall>y \<in> set (prefix_path r2 steps2). clean y"
       "prefix_path r1 steps1 \<noteq> prefix_path r2 steps2"
    using keys[OF that, of "[]" "[]"] by (simp add: template_def)
  from assoc keys prefixes show ?thesis by blast
qed

theorem fork_prefix_composition_witness:
  "template (template ''a'' ''b'') ''c'' = ''a__b__c''
   \<and> clean ''polls'' \<and> clean ''detail_view'' \<and> clean ''detail'' \<and> clean ''view''
   \<and> prefix_path \<lparr>fprefix = ''polls'', foptions = None\<rparr> [(''detail_view'', None)]
       = [''polls'', ''detail_view'']
   \<and> prefix_path \<lparr>fprefix = ''polls'', foptions = None\<rparr>
         [(''detail'', None), (''view'', None)]
       = [''polls'', ''detail'', ''view'']
   \<and> template (fprefix (fork_chain \<lparr>fprefix = ''polls'', foptions = None\<rparr>
                          [(''detail_view'', None)])) ''open''
       \<noteq> template (fprefix (fork_chain \<lparr>fprefix = ''polls'', foptions = None\<rparr>
                          [(''detail'', None), (''view'', None)])) ''open''"
  using fork_prefix_composition
    [where a = "''a''" and b = "''b''" and c = "''c''"
       and ?r1.0 = "\<lparr>fprefix = ''polls'', foptions = None\<rparr>"
       and ?steps1.0 = "[(''detail_view'', None)]"
       and ?r2.0 = "\<lparr>fprefix = ''polls'', foptions = None\<rparr>"
       and ?steps2.0 = "[(''detail'', None), (''view'', None)]"
       and k = "''open''" and k' = "''open''"]
  by (simp add: prefix_path_def clean_def template_def)

end
